theory Spec2Isabelle
  imports Complex_Main
begin

section \<open>JavaScript values and plain objects\<close>

text \<open>
  The services and controllers pass untyped (\<^verbatim>\<open>any\<close>) values around, so the model has one
  type of JavaScript values. A plain object is the list of its own enumerable properties in
  insertion order, which is the order a \<^verbatim>\<open>for ... in\<close> loop visits them. Numbers are IEEE
  doubles in the program; every finite double is a real number, and nothing below computes
  with them beyond the test against zero.
\<close>

datatype jsval =
    Undefined
  | Null
  | Bool bool
  | Num real
  | Str string
  | Arr "jsval list"
  | Obj "(string \<times> jsval) list"

type_synonym obj = "(string \<times> jsval) list"

text \<open>\<^verbatim>\<open>o[k]\<close>: a property that is missing reads as \<^verbatim>\<open>undefined\<close>.\<close>

definition get_prop :: "obj \<Rightarrow> string \<Rightarrow> jsval" where
  "get_prop ob k = (case map_of ob k of None \<Rightarrow> Undefined | Some v \<Rightarrow> v)"

text \<open>\<^verbatim>\<open>o[k] = v\<close>: an existing property keeps its place, a new one is appended.\<close>

fun set_prop :: "obj \<Rightarrow> string \<Rightarrow> jsval \<Rightarrow> obj" where
  "set_prop [] k v = [(k, v)]"
| "set_prop ((k', v') # ps) k v =
     (if k' = k then (k, v) # ps else (k', v') # set_prop ps k v)"

definition own_keys :: "obj \<Rightarrow> string list" where
  "own_keys ob = map fst ob"

text \<open>The coercion to boolean made by \<^verbatim>\<open>!x\<close>, \<^verbatim>\<open>x || y\<close>, \<^verbatim>\<open>x && y\<close> and \<^verbatim>\<open>filter(Boolean)\<close>.\<close>

fun truthy :: "jsval \<Rightarrow> bool" where
  "truthy Undefined = False"
| "truthy Null = False"
| "truthy (Bool b) = b"
| "truthy (Num n) = (n \<noteq> 0)"
| "truthy (Str s) = (s \<noteq> [])"
| "truthy (Arr xs) = True"
| "truthy (Obj ps) = True"

fun typeof :: "jsval \<Rightarrow> string" where
  "typeof Undefined = ''undefined''"
| "typeof Null = ''object''"
| "typeof (Bool b) = ''boolean''"
| "typeof (Num n) = ''number''"
| "typeof (Str s) = ''string''"
| "typeof (Arr xs) = ''object''"
| "typeof (Obj ps) = ''object''"

text \<open>\<^verbatim>\<open>Array.prototype.join\<close> on strings.\<close>

fun join :: "string \<Rightarrow> string list \<Rightarrow> string" where
  "join sep [] = []"
| "join sep [x] = x"
| "join sep (x # y # ys) = x @ sep @ join sep (y # ys)"

text \<open>
  The library functions the code calls and that are not part of the repository are
  parameters: how a number prints, the text \<^verbatim>\<open>JSON.stringify\<close> gives for a value that has
  one, and \<^verbatim>\<open>JSON.parse\<close> (\<open>Inl m\<close> is a \<^verbatim>\<open>SyntaxError\<close> with message \<open>m\<close>).
\<close>

record runtime =
  NumberToString :: "real \<Rightarrow> string"
  JSON_text :: "jsval \<Rightarrow> string"
  JSON_parse :: "string \<Rightarrow> string + jsval"

text \<open>The string a value contributes to a template literal \<^verbatim>\<open>`${v}`\<close>.\<close>

fun ToString :: "runtime \<Rightarrow> jsval \<Rightarrow> string" where
  "ToString rt Undefined = ''undefined''"
| "ToString rt Null = ''null''"
| "ToString rt (Bool b) = (if b then ''true'' else ''false'')"
| "ToString rt (Num n) = NumberToString rt n"
| "ToString rt (Str s) = s"
| "ToString rt (Arr xs) =
     join '','' (map (\<lambda>x. if x = Undefined \<or> x = Null then [] else ToString rt x) xs)"
| "ToString rt (Obj ps) = ''[object Object]''"

text \<open>\<^verbatim>\<open>JSON.stringify(v)\<close> is \<^verbatim>\<open>undefined\<close> for \<^verbatim>\<open>undefined\<close> and a string otherwise.\<close>

definition JSON_stringify :: "runtime \<Rightarrow> jsval \<Rightarrow> jsval" where
  "JSON_stringify rt v = (if v = Undefined then Undefined else Str (JSON_text rt v))"

text \<open>
  An \<^verbatim>\<open>Error\<close> object, read only through its \<^verbatim>\<open>name\<close> and \<^verbatim>\<open>message\<close>. The messages of
  the errors that the engine or the store raises are abridged; no property depends on
  their wording.
\<close>

definition JSError :: "string \<Rightarrow> string \<Rightarrow> jsval" where
  "JSError nm msg = Obj [(''name'', Str nm), (''message'', Str msg)]"

text \<open>
  \<^verbatim>\<open>v.k\<close> on any value: reading a property of \<^verbatim>\<open>undefined\<close> or \<^verbatim>\<open>null\<close> raises a
  \<^verbatim>\<open>TypeError\<close> (\<open>Inl\<close>); the names read below (\<^verbatim>\<open>message\<close>, \<^verbatim>\<open>body\<close>, \<^verbatim>\<open>statusCode\<close>,
  \<^verbatim>\<open>id\<close>) are no properties of a primitive or of an array.
\<close>

fun read_prop :: "jsval \<Rightarrow> string \<Rightarrow> jsval + jsval" where
  "read_prop Undefined k =
     Inl (JSError ''TypeError'' (''Cannot read properties of undefined (reading '' @ k @ '')''))"
| "read_prop Null k =
     Inl (JSError ''TypeError'' (''Cannot read properties of null (reading '' @ k @ '')''))"
| "read_prop (Obj ps) k = Inr (get_prop ps k)"
| "read_prop v k = Inr Undefined"

section \<open>The table\<close>

text \<open>
  The DynamoDB table is a collaborator: a finite map from the pair (\<^verbatim>\<open>PK\<close>, \<^verbatim>\<open>SK\<close>) to the
  stored item. A \<^verbatim>\<open>PutCommand\<close> replaces the item under the key its \<^verbatim>\<open>Item\<close> carries (both key
  attributes are strings in the table's schema, anything else is rejected), a
  \<^verbatim>\<open>GetCommand\<close> reads and a \<^verbatim>\<open>DeleteCommand\<close> removes the item under a key. The commands
  are taken to reach the table, and an item with string keys to be one the table accepts.
\<close>

type_synonym table = "string \<times> string \<Rightarrow> obj option"

definition PutCommand :: "obj \<Rightarrow> table \<Rightarrow> jsval + table" where
  "PutCommand item tbl =
     (case get_prop item ''PK'' of
        Str p \<Rightarrow>
          (case get_prop item ''SK'' of
             Str s \<Rightarrow> Inr (tbl((p, s) \<mapsto> item))
           | _ \<Rightarrow> Inl (JSError ''ValidationException'' ''Type mismatch for key SK''))
      | _ \<Rightarrow> Inl (JSError ''ValidationException'' ''Type mismatch for key PK''))"

definition GetCommand :: "string \<Rightarrow> string \<Rightarrow> table \<Rightarrow> obj option" where
  "GetCommand p s tbl = tbl (p, s)"

definition DeleteCommand :: "string \<Rightarrow> string \<Rightarrow> table \<Rightarrow> table" where
  "DeleteCommand p s tbl = tbl((p, s) := None)"

text \<open>
  A \<^verbatim>\<open>QueryCommand\<close> answers one page at a time. What the index holds for the key condition
  and where the backend cuts the pages is the backend's matter, so the answer to the query
  \<open>(sk, pk)\<close> resumed at \<^verbatim>\<open>ExclusiveStartKey\<close> is a parameter of \<open>list\<close>.
\<close>

record page =
  Items :: "obj list option"
  LastEvaluatedKey :: "obj option"

type_synonym query = "string \<Rightarrow> string \<Rightarrow> obj option \<Rightarrow> page"

section \<open>DynamoDbService\<close>

text \<open>
  \<^verbatim>\<open>removeKeys\<close>: the rest pattern \<^verbatim>\<open>{ SK, PK, ...otherFields }\<close> copies every own property
  but the two named ones into a new object.
\<close>

definition removeKeys :: "obj list \<Rightarrow> obj list" where
  "removeKeys items = map (filter (\<lambda>(k, v). k \<noteq> ''SK'' \<and> k \<noteq> ''PK'')) items"

text \<open>
  Functions that assign to a parameter return the object as the caller finds it after the
  call, next to the table and to what the call returns or throws (\<open>Inl\<close> the thrown value).
  The clock and the id generator are arguments: \<open>now\<close> is what
  \<^verbatim>\<open>new Date().toISOString()\<close> gives at that line and \<open>uuid\<close> what \<^verbatim>\<open>v4()\<close> gives.
\<close>

definition putItem :: "obj \<Rightarrow> string \<Rightarrow> table \<Rightarrow> obj \<times> table \<times> (jsval + unit)" where
  "putItem resource now tbl =
     (let resource1 = set_prop resource ''lastModifiedOn'' (Str now)
      in case PutCommand resource1 tbl of
           Inl e \<Rightarrow> (resource1, tbl, Inl e)
         | Inr tbl' \<Rightarrow> (resource1, tbl', Inr ()))"

definition create ::
  "runtime \<Rightarrow> obj \<Rightarrow> string \<Rightarrow> string \<Rightarrow> string \<Rightarrow> string \<Rightarrow> string \<Rightarrow> table
     \<Rightarrow> obj \<times> table \<times> (jsval + jsval)" where
  "create rt resource pk sk uuid now now' tbl =
     (let r1 = set_prop resource ''id'' (Str uuid);
          r2 = set_prop r1 ''createdOn'' (Str now);
          r3 = set_prop r2 ''PK'' (Str (pk @ ''#'' @ ToString rt (get_prop r2 ''id'')));
          r4 = set_prop r3 ''SK'' (Str sk)
      in case putItem r4 now' tbl of
           (r5, tbl', Inl e) \<Rightarrow> (r5, tbl', Inl e)
         | (r5, tbl', Inr u) \<Rightarrow> (r5, tbl', Inr (get_prop r5 ''id'')))"

definition createLink ::
  "obj \<Rightarrow> string \<Rightarrow> string \<Rightarrow> string \<Rightarrow> string \<Rightarrow> table \<Rightarrow> obj \<times> table \<times> (jsval + unit)" where
  "createLink resource pk sk now now' tbl =
     (let r1 = set_prop resource ''createdOn'' (Str now);
          r2 = set_prop r1 ''PK'' (Str pk);
          r3 = set_prop r2 ''SK'' (Str sk)
      in putItem r3 now' tbl)"

definition get :: "runtime \<Rightarrow> jsval \<Rightarrow> string \<Rightarrow> string \<Rightarrow> table \<Rightarrow> obj option" where
  "get rt ident pk sk tbl =
     (case GetCommand (pk @ ''#'' @ ToString rt ident) sk tbl of
        None \<Rightarrow> None
      | Some item \<Rightarrow> Some (hd (removeKeys [item])))"

text \<open>
  The loop of \<open>update\<close>: \<^verbatim>\<open>for (const prop in resource)\<close> visits the own keys of
  \<open>resource\<close> in order, skips \<^verbatim>\<open>createdOn\<close> and \<^verbatim>\<open>id\<close> and copies the rest.
\<close>

fun merge_props :: "obj \<Rightarrow> string list \<Rightarrow> obj \<Rightarrow> obj" where
  "merge_props resource [] existingItem = existingItem"
| "merge_props resource (prop # props) existingItem =
     (if prop \<in> set [''createdOn'', ''id''] then merge_props resource props existingItem
      else merge_props resource props (set_prop existingItem prop (get_prop resource prop)))"

definition update ::
  "runtime \<Rightarrow> obj \<Rightarrow> string \<Rightarrow> string \<Rightarrow> string \<Rightarrow> table \<Rightarrow> obj \<times> table \<times> (jsval + unit)" where
  "update rt resource pk sk now tbl =
     (let r1 = set_prop resource ''PK'' (Str (pk @ ''#'' @ ToString rt (get_prop resource ''id'')));
          r2 = set_prop r1 ''SK'' (Str sk)
      in case get rt (get_prop r2 ''id'') pk sk tbl of
           None \<Rightarrow> (r2, tbl, Inl (Str ''404''))
         | Some existingItem \<Rightarrow>
             (case putItem (merge_props r2 (own_keys r2) existingItem) now tbl of
                (stored, tbl', res) \<Rightarrow> (r2, tbl', res)))"

definition delete :: "runtime \<Rightarrow> jsval \<Rightarrow> string \<Rightarrow> string \<Rightarrow> table \<Rightarrow> table" where
  "delete rt ident pk sk tbl = DeleteCommand (pk @ ''#'' @ ToString rt ident) sk tbl"

definition deleteWithFullKey :: "string \<Rightarrow> string \<Rightarrow> table \<Rightarrow> table" where
  "deleteWithFullKey pk sk tbl = DeleteCommand pk sk tbl"

text \<open>
  \<open>list\<close>: the first page seeds \<open>items\<close> (spreading \<^verbatim>\<open>results.Items\<close> raises a
  \<^verbatim>\<open>TypeError\<close> when the page has no \<^verbatim>\<open>Items\<close>); the \<^verbatim>\<open>while\<close> loop asks for the next page
  as long as the last answer carries a \<^verbatim>\<open>LastEvaluatedKey\<close>. Nothing in the code bounds the
  loop, so a run that never ends is the value \<open>None\<close>.
\<close>

partial_function (option) list_pages ::
  "(obj option \<Rightarrow> page) \<Rightarrow> page \<Rightarrow> obj list \<Rightarrow> obj list option" where
  "list_pages send results items =
     (case LastEvaluatedKey results of
        None \<Rightarrow> Some items
      | Some k \<Rightarrow>
          (let results' = send (Some k);
               items' = (case Items results' of
                           None \<Rightarrow> items
                         | Some xs \<Rightarrow> if length xs \<noteq> 0 then items @ xs else items)
           in list_pages send results' items'))"

definition list :: "query \<Rightarrow> string \<Rightarrow> string \<Rightarrow> (jsval + obj list) option" where
  "list send sk pk =
     (let results = send sk pk None
      in case Items results of
           None \<Rightarrow> Some (Inl (JSError ''TypeError'' ''results.Items is not iterable''))
         | Some xs \<Rightarrow>
             (case list_pages (send sk pk) results xs of
                None \<Rightarrow> None
              | Some items \<Rightarrow> Some (Inr (removeKeys items))))"

section \<open>The response helper and the item controllers\<close>

definition buildResponseBody :: "runtime \<Rightarrow> real \<Rightarrow> jsval \<Rightarrow> jsval \<Rightarrow> jsval" where
  "buildResponseBody rt status body headers =
     (let headersToUse =
            (if headers = Str ''ALLOW'' then
               Obj [(''Access-Control-Allow-Headers'', Str ''*''),
                    (''Access-Control-Allow-Origin'', Str ''*''),
                    (''Access-Control-Allow-Methods'', Str ''*'')]
             else if truthy headers then headers
             else Obj [])
      in Obj [(''statusCode'', Num status),
              (''headers'', headersToUse),
              (''body'', if typeof body = ''string'' then body else JSON_stringify rt body)])"

text \<open>
  The request as the controllers and the local server read it: the body, Express's
  \<^verbatim>\<open>params\<close> and the \<^verbatim>\<open>pathParameters\<close> of the Lambda event.
\<close>

record request =
  body :: jsval
  params :: jsval
  pathParameters :: jsval

text \<open>
  \<open>ItemsGetController.handler\<close>, which leaves the table as it is. \<open>get\<close> and
  \<open>buildResponseBody\<close> do not throw here, so the
  only error of the \<^verbatim>\<open>try\<close> block is the \<^verbatim>\<open>TypeError\<close> of \<^verbatim>\<open>request.pathParameters.id\<close>;
  the \<^verbatim>\<open>catch\<close> block reads the same property for its log line first, which raises again
  and leaves the handler.
\<close>

definition ItemsGetController_handler ::
  "runtime \<Rightarrow> request \<Rightarrow> table \<Rightarrow> table \<times> (jsval + jsval)" where
  "ItemsGetController_handler rt request tbl =
     (case read_prop (pathParameters request) ''id'' of
        Inl e \<Rightarrow> (tbl, Inl e)
      | Inr ident \<Rightarrow>
          (case get rt ident ''ITEM'' ''ITEM'' tbl of
             None \<Rightarrow> (tbl, Inr (buildResponseBody rt 200 Undefined (Str ''ALLOW'')))
           | Some item \<Rightarrow> (tbl, Inr (buildResponseBody rt 200 (Obj item) (Str ''ALLOW'')))))"

text \<open>
  The decimal digits of an array index, and the value \<^verbatim>\<open>JSON.parse\<close> returned seen as the
  object \<open>update\<close> assigns to: an array is an object whose own keys are its indices. The
  first line of \<open>update\<close> reads \<^verbatim>\<open>resource.id\<close>, which raises for \<^verbatim>\<open>null\<close>, and then
  assigns \<^verbatim>\<open>resource.PK\<close>, which raises for a primitive under the strict mode the compiler
  emits.
\<close>

function show_nat :: "nat \<Rightarrow> string" where
  "show_nat n =
     (if n < 10 then [''0123456789'' ! n]
      else show_nat (n div 10) @ [''0123456789'' ! (n mod 10)])"
  by pat_completeness auto
termination
  by (relation "measure id") auto

fun as_object :: "jsval \<Rightarrow> obj option" where
  "as_object (Obj ps) = Some ps"
| "as_object (Arr xs) = Some (zip (map show_nat [0..<length xs]) xs)"
| "as_object v = None"

text \<open>
  \<open>ItemsUpdateController.handler\<close>: \<open>attempt\<close> is the \<^verbatim>\<open>try\<close> block up to the call of
  \<open>update\<close>; the \<^verbatim>\<open>catch\<close> block evaluates its log line and then \<^verbatim>\<open>error.message\<close>.
\<close>

definition ItemsUpdateController_handler ::
  "runtime \<Rightarrow> string \<Rightarrow> request \<Rightarrow> table \<Rightarrow> table \<times> (jsval + jsval)" where
  "ItemsUpdateController_handler rt now request tbl =
     (let attempt =
            (case JSON_parse rt (ToString rt (body request)) of
               Inl m \<Rightarrow> (tbl, Inl (JSError ''SyntaxError'' m))
             | Inr v \<Rightarrow>
                 (case as_object v of
                    None \<Rightarrow>
                      (case read_prop v ''id'' of
                         Inl e \<Rightarrow> (tbl, Inl e)
                       | Inr ident \<Rightarrow> (tbl, Inl (JSError ''TypeError'' ''Cannot create property PK'')))
                  | Some resource \<Rightarrow>
                      (case update rt resource ''ITEM'' ''ITEM'' now tbl of
                         (resource', tbl', res) \<Rightarrow> (tbl', res))))
      in case attempt of
           (tbl', Inr u) \<Rightarrow> (tbl', Inr (buildResponseBody rt 204 Undefined (Str ''ALLOW'')))
         | (tbl', Inl error) \<Rightarrow>
             (case read_prop (pathParameters request) ''id'' of
                Inl e \<Rightarrow> (tbl', Inl e)
              | Inr ident \<Rightarrow>
                  (case read_prop error ''message'' of
                     Inl e \<Rightarrow> (tbl', Inl e)
                   | Inr m \<Rightarrow> (tbl', Inr (buildResponseBody rt 500 m (Str ''ALLOW''))))))"

section \<open>The local server\<close>

subsection \<open>Decorators and route registration\<close>

text \<open>
  The decorators \<^verbatim>\<open>Get\<close>, \<^verbatim>\<open>Post\<close>, \<^verbatim>\<open>Put\<close>, \<^verbatim>\<open>Patch\<close> and \<^verbatim>\<open>Delete\<close> record the
  method and the route on an operation, \<^verbatim>\<open>Controller\<close> records the base path on the class
  and appends the class to \<^verbatim>\<open>controllers\<close>. A member without decorator has neither
  metadata. The server lower-cases the method for Express and upper-cases it for the
  route label.
\<close>

datatype HttpMethod = Get | Post | Put | Patch | Delete | All

fun toUpperCase :: "HttpMethod \<Rightarrow> string" where
  "toUpperCase Get = ''GET''"
| "toUpperCase Post = ''POST''"
| "toUpperCase Put = ''PUT''"
| "toUpperCase Patch = ''PATCH''"
| "toUpperCase Delete = ''DELETE''"
| "toUpperCase All = ''ALL''"

record operation =
  methodName :: string
  route :: "string option"
  httpMethod :: "HttpMethod option"

record controller =
  basePath :: "string option"
  operations :: "operation list"

text \<open>\<^verbatim>\<open>filter(Boolean)\<close> on the two segments drops \<^verbatim>\<open>undefined\<close> and the empty string.\<close>

fun filter_Boolean :: "string option list \<Rightarrow> string list" where
  "filter_Boolean [] = []"
| "filter_Boolean (None # xs) = filter_Boolean xs"
| "filter_Boolean (Some s # xs) = (if s = [] then filter_Boolean xs else s # filter_Boolean xs)"

definition fullPath :: "string \<Rightarrow> string option \<Rightarrow> string" where
  "fullPath base rte = ''/'' @ join ''/'' (filter_Boolean [Some base, rte])"

definition base_of :: "controller \<Rightarrow> string" where
  "base_of c = (case basePath c of None \<Rightarrow> [] | Some b \<Rightarrow> if b = [] then [] else b)"

definition route_label :: "HttpMethod \<Rightarrow> string \<Rightarrow> string" where
  "route_label h fp = ''['' @ toUpperCase h @ ''] '' @ fp"

text \<open>
  The routes Express holds: method, path and the operation to call. The two nested
  \<^verbatim>\<open>forEach\<close> loops carry the array \<^verbatim>\<open>routes\<close> and the Express application; a \<^verbatim>\<open>throw\<close> ends
  them (\<open>Inl\<close> the thrown string).
\<close>

type_synonym app = "(HttpMethod \<times> string \<times> string) list"

fun forEach_methodName ::
  "string \<Rightarrow> operation list \<Rightarrow> string list \<times> app \<Rightarrow> jsval + string list \<times> app" where
  "forEach_methodName base [] st = Inr st"
| "forEach_methodName base (m # ms) (routes, ap) =
     (case httpMethod m of
        None \<Rightarrow> forEach_methodName base ms (routes, ap)
      | Some h \<Rightarrow>
          (let fp = fullPath base (route m) in
           if fp \<noteq> [] then
             (let label = route_label h fp in
              if label \<in> set routes then Inl (Str (''Duplicate Route: '' @ label))
              else forEach_methodName base ms (routes @ [label], ap @ [(h, fp, methodName m)]))
           else forEach_methodName base ms (routes, ap)))"

fun forEach_controller :: "controller list \<Rightarrow> string list \<times> app \<Rightarrow> jsval + string list \<times> app" where
  "forEach_controller [] st = Inr st"
| "forEach_controller (c # cs) st =
     (case forEach_methodName (base_of c) (operations c) st of
        Inl e \<Rightarrow> Inl e
      | Inr st' \<Rightarrow> forEach_controller cs st')"

text \<open>
  The module runs top to bottom: the registration loop first, \<^verbatim>\<open>app.listen\<close> after it. An
  exception of the loop is uncaught and ends the process before \<^verbatim>\<open>app.listen\<close> is reached.
\<close>

datatype process = ABORTED jsval | LISTENING app

definition server :: "controller list \<Rightarrow> process" where
  "server controllers =
     (case forEach_controller controllers ([], []) of
        Inl e \<Rightarrow> ABORTED e
      | Inr (routes, ap) \<Rightarrow> LISTENING ap)"

subsection \<open>The route callback\<close>

record response =
  status :: jsval
  json :: jsval

definition or_else :: "jsval \<Rightarrow> jsval \<Rightarrow> jsval" where
  "or_else a b = (if truthy a then a else b)"

text \<open>
  The \<^verbatim>\<open>catch\<close> block of the callback. Reading \<^verbatim>\<open>e.message\<close> raises when \<open>e\<close> is
  \<^verbatim>\<open>undefined\<close> or \<^verbatim>\<open>null\<close>; nothing catches that (\<open>Inl\<close>: the promise of the callback
  is rejected).
\<close>

definition catch_all :: "jsval \<Rightarrow> jsval + response" where
  "catch_all e =
     (case read_prop e ''message'' of
        Inl te \<Rightarrow> Inl te
      | Inr m \<Rightarrow> Inr \<lparr>status = Num 500, json = Obj [(''error'', m)]\<rparr>)"

text \<open>
  The callback registered for a route, around the operation \<open>handler\<close> of the controller.
  Its first two lines turn the Express request into the request the operation reads
  (\<open>invocation_request\<close>). The operation may change a state \<open>s\<close> (the table) and returns
  or throws.
\<close>

definition invocation_request :: "runtime \<Rightarrow> request \<Rightarrow> request" where
  "invocation_request rt req =
     (let req1 = (if truthy (body req) \<and> typeof (body req) = ''object''
                  then req\<lparr>body := JSON_stringify rt (body req)\<rparr> else req);
          req2 = (if truthy (params req1) then req1\<lparr>pathParameters := params req1\<rparr> else req1)
      in req2)"

definition route_callback ::
  "runtime \<Rightarrow> (request \<Rightarrow> 's \<Rightarrow> 's \<times> (jsval + jsval)) \<Rightarrow> request \<Rightarrow> 's \<Rightarrow> 's \<times> (jsval + response)" where
  "route_callback rt handler req s =
     (case handler (invocation_request rt req) s of
        (s', Inl e) \<Rightarrow> (s', catch_all e)
      | (s', Inr result) \<Rightarrow>
          (case read_prop result ''body'' of
             Inl e \<Rightarrow> (s', catch_all e)
           | Inr b \<Rightarrow>
               (case (case b of
                        Str text \<Rightarrow>
                          (case JSON_parse rt text of
                             Inl m \<Rightarrow> Inl (JSError ''SyntaxError'' m)
                           | Inr v \<Rightarrow> Inr v)
                      | _ \<Rightarrow> Inr b) of
                  Inl e \<Rightarrow> (s', catch_all e)
                | Inr b' \<Rightarrow>
                    (case read_prop result ''statusCode'' of
                       Inl e \<Rightarrow> (s', catch_all e)
                     | Inr code \<Rightarrow>
                         (s', Inr \<lparr>status = or_else code (Num 200),
                                   json = or_else b' (Obj [])\<rparr>)))))"

section \<open>Notions used to state the properties\<close>

text \<open>The items a page contributes: none when it has no \<^verbatim>\<open>Items\<close>.\<close>

definition items_of :: "page \<Rightarrow> obj list" where
  "items_of p = (case Items p of None \<Rightarrow> [] | Some xs \<Rightarrow> xs)"

text \<open>
  The result of a query spans the pages \<open>ps\<close>: asked from \<open>start\<close> the backend answers
  the first of them, every page but the last carries the continuation token that the next
  page answers, and the last page carries none.
\<close>

fun spans :: "(obj option \<Rightarrow> page) \<Rightarrow> obj option \<Rightarrow> page list \<Rightarrow> bool" where
  "spans send start [] = False"
| "spans send start [p] = (send start = p \<and> LastEvaluatedKey p = None)"
| "spans send start (p # q # ps) =
     (send start = p \<and> LastEvaluatedKey p \<noteq> None \<and> spans send (LastEvaluatedKey p) (q # ps))"

text \<open>
  The pairs of method and full path that the decorated operations of the controllers
  resolve to, in the order of registration.
\<close>

definition resolved_operations :: "controller \<Rightarrow> (HttpMethod \<times> string) list" where
  "resolved_operations c =
     List.map_filter
       (\<lambda>m. case httpMethod m of
              None \<Rightarrow> None
            | Some h \<Rightarrow> Some (h, fullPath (base_of c) (route m)))
       (operations c)"

definition resolved :: "controller list \<Rightarrow> (HttpMethod \<times> string) list" where
  "resolved cs = concat (map resolved_operations cs)"

definition route_of :: "HttpMethod \<times> string \<times> string \<Rightarrow> HttpMethod \<times> string" where
  "route_of entry = (fst entry, fst (snd entry))"

text \<open>
  What a registration loop makes of the routes \<open>seen\<close> before it and the routes \<open>new\<close> it
  walks through: all of them registered when they are pairwise different, and the thrown
  message names a route that occurs twice otherwise.
\<close>

definition registers ::
  "(HttpMethod \<times> string) list \<Rightarrow> (HttpMethod \<times> string) list
     \<Rightarrow> jsval + string list \<times> app \<Rightarrow> bool" where
  "registers seen new res =
     (if distinct (seen @ new)
      then \<exists>ap'. res = Inr (map (\<lambda>(h, fp). route_label h fp) (seen @ new), ap')
                   \<and> map route_of ap' = seen @ new
      else \<exists>h fp. res = Inl (Str (''Duplicate Route: '' @ route_label h fp))
                   \<and> 2 \<le> count_list (seen @ new) (h, fp))"

text \<open>The number of slashes a path begins with.\<close>

definition leading_slashes :: "string \<Rightarrow> nat" where
  "leading_slashes s = length (takeWhile (\<lambda>c. c = CHR ''/'') s)"

section \<open>Example data\<close>

text \<open>
  A runtime for the examples: the number 0 prints as \<^verbatim>\<open>0\<close>, and \<^verbatim>\<open>JSON.stringify\<close> and
  \<^verbatim>\<open>JSON.parse\<close> are given on the values and texts that occur in the examples.
\<close>

definition quoted :: "string \<Rightarrow> string" where
  "quoted s = [CHR 0x22] @ s @ [CHR 0x22]"

definition example_item :: obj where
  "example_item =
     [(''name'', Str ''A''), (''id'', Str ''1''), (''createdOn'', Str ''t0''),
      (''lastModifiedOn'', Str ''t0'')]"

definition example_item_text :: string where
  "example_item_text =
     ''{'' @ quoted ''name'' @ '':'' @ quoted ''A'' @ '','' @ quoted ''id'' @ '':'' @ quoted ''1'' @ '',''
       @ quoted ''createdOn'' @ '':'' @ quoted ''t0'' @ '',''
       @ quoted ''lastModifiedOn'' @ '':'' @ quoted ''t0'' @ ''}''"

definition example_update :: obj where
  "example_update = [(''id'', Str ''1''), (''name'', Str ''B''), (''lastModifiedOn'', Str ''t5'')]"

definition example_update_text :: string where
  "example_update_text =
     ''{'' @ quoted ''id'' @ '':'' @ quoted ''1'' @ '','' @ quoted ''name'' @ '':'' @ quoted ''B'' @ '',''
       @ quoted ''lastModifiedOn'' @ '':'' @ quoted ''t5'' @ ''}''"

definition example_runtime :: runtime where
  "example_runtime =
     \<lparr>NumberToString = (\<lambda>n. ''0''),
      JSON_text = (\<lambda>v. if v = Obj example_item then example_item_text
                        else if v = Obj example_update then example_update_text
                        else ''{}''),
      JSON_parse = (\<lambda>s. if s = example_item_text then Inr (Obj example_item)
                         else if s = example_update_text then Inr (Obj example_update)
                         else if s = ''{}'' then Inr (Obj [])
                         else Inl ''Unexpected token'')\<rparr>"

text \<open>A stored item as \<open>create\<close> leaves it, and the table that holds only this item.\<close>

definition example_stored :: obj where
  "example_stored =
     [(''name'', Str ''A''), (''id'', Str ''1''), (''createdOn'', Str ''t0''),
      (''PK'', Str ''ITEM#1''), (''SK'', Str ''ITEM''), (''lastModifiedOn'', Str ''t0'')]"

definition example_table :: table where
  "example_table = Map.empty((''ITEM#1'', ''ITEM'') \<mapsto> example_stored)"

definition example_stored2 :: obj where
  "example_stored2 =
     [(''name'', Str ''C''), (''id'', Str ''2''), (''createdOn'', Str ''t0''),
      (''PK'', Str ''ITEM#2''), (''SK'', Str ''ITEM''), (''lastModifiedOn'', Str ''t0'')]"

text \<open>A backend that answers the query in two pages of one item each.\<close>

definition example_key :: obj where
  "example_key = [(''PK'', Str ''ITEM#1''), (''SK'', Str ''ITEM'')]"

definition example_query :: query where
  "example_query sk pk start =
     (if start = None then \<lparr>Items = Some [example_stored], LastEvaluatedKey = Some example_key\<rparr>
      else \<lparr>Items = Some [example_stored2], LastEvaluatedKey = None\<rparr>)"

text \<open>Requests as Express hands them to the callbacks of \<^verbatim>\<open>/items/:id\<close>.\<close>

definition example_get_request :: request where
  "example_get_request =
     \<lparr>body = Obj [], params = Obj [(''id'', Str ''1'')], pathParameters = Undefined\<rparr>"

definition example_put_request :: request where
  "example_put_request =
     \<lparr>body = Obj example_update, params = Obj [(''id'', Str ''1'')], pathParameters = Undefined\<rparr>"

text \<open>An operation that does nothing but throw \<open>e\<close>.\<close>

definition raising :: "jsval \<Rightarrow> request \<Rightarrow> unit \<Rightarrow> unit \<times> (jsval + jsval)" where
  "raising e req s = (s, Inl e)"

text \<open>Two controllers on the same base path whose operations are both \<^verbatim>\<open>GET /items/:id\<close>.\<close>

definition example_controllers :: "controller list" where
  "example_controllers =
     [\<lparr>basePath = Some ''items'',
       operations = [\<lparr>methodName = ''handler'', route = Some '':id'', httpMethod = Some Get\<rparr>]\<rparr>,
      \<lparr>basePath = Some ''items'',
       operations = [\<lparr>methodName = ''helper'', route = None, httpMethod = None\<rparr>,
                     \<lparr>methodName = ''handler'', route = Some '':id'', httpMethod = Some Get\<rparr>]\<rparr>]"

section \<open>Objects and the table\<close>

lemma get_prop_set_prop:
  "get_prop (set_prop ob k v) k' = (if k' = k then v else get_prop ob k')"
  by (induction ob) (auto simp: get_prop_def)

lemma keys_set_prop: "set (own_keys (set_prop ob k v)) = insert k (set (own_keys ob))"
proof (induction ob)
  case Nil
  then show ?case by (simp add: own_keys_def)
next
  case (Cons p ps)
  obtain k' v' where p: "p = (k', v')" by (cases p)
  from Cons show ?case
    by (cases "k' = k") (auto simp: own_keys_def p)
qed

lemma set_prop_append_new: "k \<notin> set (own_keys ob) \<Longrightarrow> set_prop ob k v = ob @ [(k, v)]"
  by (induction ob) (auto simp: own_keys_def)

lemma keys_append: "own_keys (a @ b) = own_keys a @ own_keys b"
  by (simp add: own_keys_def)

lemma keys_removed:
  "set (own_keys (filter (\<lambda>(k, v). k \<noteq> ''SK'' \<and> k \<noteq> ''PK'') item))
     = set (own_keys item) - {''SK'', ''PK''}"
  by (induction item) (auto simp: own_keys_def)

lemma get_prop_removed:
  "k \<noteq> ''SK'' \<Longrightarrow> k \<noteq> ''PK'' \<Longrightarrow>
     get_prop (filter (\<lambda>(k, v). k \<noteq> ''SK'' \<and> k \<noteq> ''PK'') item) k = get_prop item k"
  by (induction item) (auto simp: get_prop_def)

lemma filter_keys_id:
  "''PK'' \<notin> set (own_keys e) \<Longrightarrow> ''SK'' \<notin> set (own_keys e) \<Longrightarrow>
     filter (\<lambda>(k, v). k \<noteq> ''SK'' \<and> k \<noteq> ''PK'') e = e"
  by (induction e) (auto simp: own_keys_def)

lemma putItem_keyed:
  assumes "get_prop r ''PK'' = Str p" "get_prop r ''SK'' = Str s"
  shows "putItem r now tbl =
           (set_prop r ''lastModifiedOn'' (Str now),
            tbl((p, s) \<mapsto> set_prop r ''lastModifiedOn'' (Str now)), Inr ())"
  using assms by (simp add: putItem_def PutCommand_def get_prop_set_prop Let_def)

lemma get_stored:
  "tbl (pk @ ''#'' @ ToString rt ident, sk) = Some e \<Longrightarrow>
     get rt ident pk sk tbl = Some (filter (\<lambda>(k, v). k \<noteq> ''SK'' \<and> k \<noteq> ''PK'') e)"
  by (simp add: get_def GetCommand_def removeKeys_def)

lemma get_missing:
  "tbl (pk @ ''#'' @ ToString rt ident, sk) = None \<Longrightarrow> get rt ident pk sk tbl = None"
  by (simp add: get_def GetCommand_def)

lemma get_created:
  "get rt (Str uuid) pk sk (tbl((pk @ ''#'' @ uuid, sk) \<mapsto> r)) =
     Some (filter (\<lambda>(k, v). k \<noteq> ''SK'' \<and> k \<noteq> ''PK'') r)"
  by (simp add: get_def GetCommand_def removeKeys_def)

section \<open>create\<close>

text \<open>What \<open>create\<close> computes, with the five assignments in the order of the source.\<close>

lemma create_eq:
  "create rt resource pk sk uuid now now' tbl =
     (let r = set_prop (set_prop (set_prop (set_prop (set_prop resource
                ''id'' (Str uuid)) ''createdOn'' (Str now)) ''PK'' (Str (pk @ ''#'' @ uuid)))
                ''SK'' (Str sk)) ''lastModifiedOn'' (Str now')
      in (r, tbl((pk @ ''#'' @ uuid, sk) \<mapsto> r), Inr (Str uuid)))"
  by (simp add: create_def Let_def get_prop_set_prop putItem_keyed)

text \<open>
  Claim C10. \<open>create\<close> assigns to its argument: after the call the caller's object is the
  object that was passed with the five assignments made on it. It carries the generated
  \<^verbatim>\<open>id\<close>, \<^verbatim>\<open>createdOn\<close> and \<^verbatim>\<open>lastModifiedOn\<close> and the key attributes \<^verbatim>\<open>PK\<close> and \<^verbatim>\<open>SK\<close>,
  every other field is as the caller passed it, its keys are the caller's and these five,
  and for a payload that uses none of the five names it is the payload followed by the five
  fields. It is this very object that the table stores, and the call returns only the id.
\<close>

theorem create_mutates_resource:
  "\<exists>r. create rt resource pk sk uuid now now' tbl
         = (r, tbl((pk @ ''#'' @ uuid, sk) \<mapsto> r), Inr (Str uuid))
     \<and> r = set_prop (set_prop (set_prop (set_prop (set_prop resource
               ''id'' (Str uuid)) ''createdOn'' (Str now)) ''PK'' (Str (pk @ ''#'' @ uuid)))
               ''SK'' (Str sk)) ''lastModifiedOn'' (Str now')
     \<and> get_prop r ''id'' = Str uuid
     \<and> get_prop r ''createdOn'' = Str now
     \<and> get_prop r ''lastModifiedOn'' = Str now'
     \<and> get_prop r ''PK'' = Str (pk @ ''#'' @ uuid)
     \<and> get_prop r ''SK'' = Str sk
     \<and> (\<forall>k. k \<notin> {''id'', ''createdOn'', ''lastModifiedOn'', ''PK'', ''SK''}
            \<longrightarrow> get_prop r k = get_prop resource k)
     \<and> set (own_keys r) =
         set (own_keys resource) \<union> {''id'', ''createdOn'', ''lastModifiedOn'', ''PK'', ''SK''}
     \<and> (set (own_keys resource) \<inter> {''id'', ''createdOn'', ''lastModifiedOn'', ''PK'', ''SK''} = {}
            \<longrightarrow> r = resource @ [(''id'', Str uuid), (''createdOn'', Str now),
                                  (''PK'', Str (pk @ ''#'' @ uuid)), (''SK'', Str sk),
                                  (''lastModifiedOn'', Str now')])"
proof -
  define r where "r = set_prop (set_prop (set_prop (set_prop (set_prop resource
               ''id'' (Str uuid)) ''createdOn'' (Str now)) ''PK'' (Str (pk @ ''#'' @ uuid)))
               ''SK'' (Str sk)) ''lastModifiedOn'' (Str now')"
  have c: "create rt resource pk sk uuid now now' tbl
         = (r, tbl((pk @ ''#'' @ uuid, sk) \<mapsto> r), Inr (Str uuid))"
    by (simp add: create_eq Let_def r_def)
  have f: "get_prop r ''id'' = Str uuid" "get_prop r ''createdOn'' = Str now"
    "get_prop r ''lastModifiedOn'' = Str now'" "get_prop r ''PK'' = Str (pk @ ''#'' @ uuid)"
    "get_prop r ''SK'' = Str sk"
    by (simp_all add: r_def get_prop_set_prop)
  have fr: "\<forall>k. k \<notin> {''id'', ''createdOn'', ''lastModifiedOn'', ''PK'', ''SK''}
            \<longrightarrow> get_prop r k = get_prop resource k"
    by (simp add: r_def get_prop_set_prop)
  have ks: "set (own_keys r) =
         set (own_keys resource) \<union> {''id'', ''createdOn'', ''lastModifiedOn'', ''PK'', ''SK''}"
    unfolding r_def keys_set_prop by auto
  have ex: "r = resource @ [(''id'', Str uuid), (''createdOn'', Str now),
                                  (''PK'', Str (pk @ ''#'' @ uuid)), (''SK'', Str sk),
                                  (''lastModifiedOn'', Str now')]"
    if d: "set (own_keys resource) \<inter> {''id'', ''createdOn'', ''lastModifiedOn'', ''PK'', ''SK''} = {}"
  proof -
    from d have n: "''id'' \<notin> set (own_keys resource)" "''createdOn'' \<notin> set (own_keys resource)"
      "''lastModifiedOn'' \<notin> set (own_keys resource)" "''PK'' \<notin> set (own_keys resource)"
      "''SK'' \<notin> set (own_keys resource)"
      by auto
    show ?thesis
      unfolding r_def using n
      by (simp add: set_prop_append_new keys_append own_keys_def[of "[_]"] own_keys_def[of "_ # _"])
  qed
  show ?thesis
    apply (rule exI[of _ r])
    apply (intro conjI)
             apply (rule c)
            apply (rule r_def)
           apply (rule f(1))
          apply (rule f(2))
         apply (rule f(3))
        apply (rule f(4))
       apply (rule f(5))
      apply (rule fr)
     apply (rule ks)
    using ex by blast
qed

theorem create_mutates_resource_witness:
  "create example_runtime [(''name'', Str ''A'')] ''ITEM'' ''ITEM'' ''1'' ''t0'' ''t1'' Map.empty
     = ([(''name'', Str ''A''), (''id'', Str ''1''), (''createdOn'', Str ''t0''),
         (''PK'', Str ''ITEM#1''), (''SK'', Str ''ITEM''), (''lastModifiedOn'', Str ''t1'')],
        Map.empty((''ITEM#1'', ''ITEM'') \<mapsto>
          [(''name'', Str ''A''), (''id'', Str ''1''), (''createdOn'', Str ''t0''),
           (''PK'', Str ''ITEM#1''), (''SK'', Str ''ITEM''), (''lastModifiedOn'', Str ''t1'')]),
        Inr (Str ''1''))"
proof -
  have d: "set (own_keys [(''name'', Str ''A'')])
             \<inter> {''id'', ''createdOn'', ''lastModifiedOn'', ''PK'', ''SK''} = {}"
    by (simp add: own_keys_def)
  from create_mutates_resource[of example_runtime "[(''name'', Str ''A'')]" "''ITEM''" "''ITEM''"
      "''1''" "''t0''" "''t1''" Map.empty]
  obtain r where c: "create example_runtime [(''name'', Str ''A'')] ''ITEM'' ''ITEM'' ''1'' ''t0'' ''t1'' Map.empty
         = (r, Map.empty((''ITEM'' @ ''#'' @ ''1'', ''ITEM'') \<mapsto> r), Inr (Str ''1''))"
    and e: "set (own_keys [(''name'', Str ''A'')])
             \<inter> {''id'', ''createdOn'', ''lastModifiedOn'', ''PK'', ''SK''} = {}
            \<longrightarrow> r = [(''name'', Str ''A'')] @ [(''id'', Str ''1''), (''createdOn'', Str ''t0''),
                                  (''PK'', Str (''ITEM'' @ ''#'' @ ''1'')), (''SK'', Str ''ITEM''),
                                  (''lastModifiedOn'', Str ''t1'')]"
    by (elim exE conjE)
  from e d have "r = [(''name'', Str ''A''), (''id'', Str ''1''), (''createdOn'', Str ''t0''),
         (''PK'', Str ''ITEM#1''), (''SK'', Str ''ITEM''), (''lastModifiedOn'', Str ''t1'')]"
    by simp
  with c show ?thesis by simp
qed

text \<open>
  Claim C4. Reading back what \<open>create\<close> stored, under the id it returned: \<open>get\<close> finds a
  record that carries the generated \<^verbatim>\<open>id\<close>, \<^verbatim>\<open>createdOn\<close> and \<^verbatim>\<open>lastModifiedOn\<close>, agrees with
  the payload on every other field, has the payload's keys and these three and neither
  \<^verbatim>\<open>PK\<close> nor \<^verbatim>\<open>SK\<close>. For a payload that uses none of the five managed names the record is
  the payload followed by the three generated fields.
\<close>

theorem create_get_roundtrip:
  "\<exists>e' tbl' item.
     create rt e pk sk uuid now now' tbl = (e', tbl', Inr (Str uuid))
     \<and> get rt (Str uuid) pk sk tbl' = Some item
     \<and> get_prop item ''id'' = Str uuid
     \<and> get_prop item ''createdOn'' = Str now
     \<and> get_prop item ''lastModifiedOn'' = Str now'
     \<and> (\<forall>k. k \<notin> {''id'', ''createdOn'', ''lastModifiedOn'', ''PK'', ''SK''}
            \<longrightarrow> get_prop item k = get_prop e k)
     \<and> set (own_keys item) =
         (set (own_keys e) - {''SK'', ''PK''}) \<union> {''id'', ''createdOn'', ''lastModifiedOn''}
     \<and> (set (own_keys e) \<inter> {''id'', ''createdOn'', ''lastModifiedOn'', ''PK'', ''SK''} = {}
            \<longrightarrow> item = e @ [(''id'', Str uuid), (''createdOn'', Str now),
                              (''lastModifiedOn'', Str now')])"
proof -
  define r where "r = set_prop (set_prop (set_prop (set_prop (set_prop e ''id'' (Str uuid))
      ''createdOn'' (Str now)) ''PK'' (Str (pk @ ''#'' @ uuid))) ''SK'' (Str sk))
      ''lastModifiedOn'' (Str now')"
  define item where "item = filter (\<lambda>(k, v). k \<noteq> ''SK'' \<and> k \<noteq> ''PK'') r"
  have c: "create rt e pk sk uuid now now' tbl = (r, tbl((pk @ ''#'' @ uuid, sk) \<mapsto> r), Inr (Str uuid))"
    by (simp add: create_eq Let_def r_def)
  have g: "get rt (Str uuid) pk sk (tbl((pk @ ''#'' @ uuid, sk) \<mapsto> r)) = Some item"
    using get_created[of rt uuid pk sk tbl r] by (simp add: item_def)
  have p1: "get_prop item ''id'' = Str uuid" "get_prop item ''createdOn'' = Str now"
    "get_prop item ''lastModifiedOn'' = Str now'"
    by (simp_all add: item_def r_def get_prop_removed get_prop_set_prop)
  have p2: "\<forall>k. k \<notin> {''id'', ''createdOn'', ''lastModifiedOn'', ''PK'', ''SK''}
            \<longrightarrow> get_prop item k = get_prop e k"
    by (simp add: item_def r_def get_prop_removed get_prop_set_prop)
  have p3: "set (own_keys item) =
         (set (own_keys e) - {''SK'', ''PK''}) \<union> {''id'', ''createdOn'', ''lastModifiedOn''}"
    unfolding item_def r_def keys_removed keys_set_prop by auto
  have p4: "item = e @ [(''id'', Str uuid), (''createdOn'', Str now), (''lastModifiedOn'', Str now')]"
    if d: "set (own_keys e) \<inter> {''id'', ''createdOn'', ''lastModifiedOn'', ''PK'', ''SK''} = {}"
  proof -
    from d have n: "''id'' \<notin> set (own_keys e)" "''createdOn'' \<notin> set (own_keys e)"
      "''lastModifiedOn'' \<notin> set (own_keys e)" "''PK'' \<notin> set (own_keys e)"
      "''SK'' \<notin> set (own_keys e)"
      by auto
    have "r = e @ [(''id'', Str uuid), (''createdOn'', Str now), (''PK'', Str (pk @ ''#'' @ uuid)),
        (''SK'', Str sk), (''lastModifiedOn'', Str now')]"
      unfolding r_def using n
      by (simp add: set_prop_append_new keys_append own_keys_def[of "[_]"] own_keys_def[of "_ # _"])
    then show ?thesis
      using n by (simp add: item_def filter_keys_id)
  qed
  show ?thesis
    apply (rule exI[of _ r])
    apply (rule exI[of _ "tbl((pk @ ''#'' @ uuid, sk) \<mapsto> r)"])
    apply (rule exI[of _ item])
    apply (intro conjI)
           apply (rule c)
          apply (rule g)
         apply (rule p1(1))
        apply (rule p1(2))
       apply (rule p1(3))
      apply (rule p2)
     apply (rule p3)
    using p4 by blast
qed

theorem create_get_roundtrip_witness:
  "\<exists>e' tbl'.
     create example_runtime [(''name'', Str ''A'')] ''ITEM'' ''ITEM'' ''1'' ''t0'' ''t1'' Map.empty
       = (e', tbl', Inr (Str ''1''))
     \<and> get example_runtime (Str ''1'') ''ITEM'' ''ITEM'' tbl'
       = Some [(''name'', Str ''A''), (''id'', Str ''1''), (''createdOn'', Str ''t0''),
               (''lastModifiedOn'', Str ''t1'')]"
proof -
  have d: "set (own_keys [(''name'', Str ''A'')])
             \<inter> {''id'', ''createdOn'', ''lastModifiedOn'', ''PK'', ''SK''} = {}"
    by (simp add: own_keys_def)
  from create_get_roundtrip[of example_runtime "[(''name'', Str ''A'')]" "''ITEM''" "''ITEM''"
      "''1''" "''t0''" "''t1''" Map.empty]
  show ?thesis
    apply (elim exE conjE)
    subgoal for e' tbl' item
      apply (rule exI[of _ e'])
      apply (rule exI[of _ tbl'])
      using d by simp
    done
qed

section \<open>list and get\<close>

lemma list_pages_last:
  "LastEvaluatedKey results = None \<Longrightarrow> list_pages send results items = Some items"
  by (subst list_pages.simps) simp

lemma list_pages_next:
  "LastEvaluatedKey results = Some k \<Longrightarrow>
     list_pages send results items = list_pages send (send (Some k)) (items @ items_of (send (Some k)))"
  by (subst list_pages.simps) (simp add: items_of_def Let_def split: option.splits)

lemma spans_first: "spans send start (p # ps) \<Longrightarrow> send start = p"
  by (cases ps) simp_all

lemma list_pages_spans:
  "spans send start (p # ps) \<Longrightarrow>
     list_pages send p items = Some (items @ concat (map items_of ps))"
proof (induction ps arbitrary: p start items)
  case Nil
  then show ?case by (simp add: list_pages_last)
next
  case (Cons q qs)
  from Cons.prems obtain k where k: "LastEvaluatedKey p = Some k"
    and rest: "spans send (Some k) (q # qs)"
    by auto
  from rest have q: "send (Some k) = q" by (rule spans_first)
  have "list_pages send p items = list_pages send q (items @ items_of q)"
    using list_pages_next[OF k, of send items] by (simp add: q)
  also have "\<dots> = Some ((items @ items_of q) @ concat (map items_of qs))"
    using rest by (rule Cons.IH)
  finally show ?case by simp
qed

text \<open>A first page without \<^verbatim>\<open>Items\<close> makes \<open>list\<close> throw before the loop.\<close>

lemma list_first_page_without_items:
  "Items (send sk pk None) = None \<Longrightarrow>
     list send sk pk = Some (Inl (JSError ''TypeError'' ''results.Items is not iterable''))"
  by (simp add: list_def)

text \<open>
  Claim C3. When the result of the query spans the pages \<open>ps\<close> (one or more) and the first
  page carries its \<^verbatim>\<open>Items\<close>, \<open>list\<close> returns, follows every continuation token, and its
  result is the concatenation of the items of all pages in order, each stripped of its
  keys: as many records as the pages hold together, and the empty sequence when they hold
  none.
\<close>

theorem list_concatenates_pages:
  assumes "spans (send sk pk) None ps" and "Items (hd ps) \<noteq> None"
  shows "list send sk pk = Some (Inr (removeKeys (concat (map items_of ps))))
     \<and> (\<forall>its. list send sk pk = Some (Inr its) \<longrightarrow>
           length its = sum_list (map (length \<circ> items_of) ps))
     \<and> (concat (map items_of ps) = [] \<longrightarrow> list send sk pk = Some (Inr []))"
proof -
  from assms(1) obtain p rest where ps: "ps = p # rest" by (cases ps) auto
  from assms(1) have first: "send sk pk None = p" unfolding ps by (rule spans_first)
  from assms(2) obtain xs where xs: "Items p = Some xs" by (auto simp: ps)
  have "list_pages (send sk pk) p xs = Some (xs @ concat (map items_of rest))"
    using assms(1) unfolding ps by (rule list_pages_spans)
  then have l: "list send sk pk = Some (Inr (removeKeys (concat (map items_of ps))))"
    by (simp add: list_def first xs ps items_of_def)
  have n: "length (removeKeys (concat (map items_of ps))) = sum_list (map (length \<circ> items_of) ps)"
    by (simp add: removeKeys_def length_concat comp_def)
  show ?thesis
    using l n by (auto simp: removeKeys_def)
qed

lemma example_spans:
  "spans (example_query ''ITEM'' ''ITEM'') None
     [\<lparr>Items = Some [example_stored], LastEvaluatedKey = Some example_key\<rparr>,
      \<lparr>Items = Some [example_stored2], LastEvaluatedKey = None\<rparr>]"
  by (simp add: example_query_def)

theorem list_concatenates_pages_witness:
  "spans (example_query ''ITEM'' ''ITEM'') None
     [\<lparr>Items = Some [example_stored], LastEvaluatedKey = Some example_key\<rparr>,
      \<lparr>Items = Some [example_stored2], LastEvaluatedKey = None\<rparr>]
   \<and> list example_query ''ITEM'' ''ITEM''
       = Some (Inr [[(''name'', Str ''A''), (''id'', Str ''1''), (''createdOn'', Str ''t0''),
                     (''lastModifiedOn'', Str ''t0'')],
                    [(''name'', Str ''C''), (''id'', Str ''2''), (''createdOn'', Str ''t0''),
                     (''lastModifiedOn'', Str ''t0'')]])"
proof -
  have i: "Items (hd [\<lparr>Items = Some [example_stored], LastEvaluatedKey = Some example_key\<rparr>,
      \<lparr>Items = Some [example_stored2], LastEvaluatedKey = None\<rparr>]) \<noteq> None"
    by simp
  from list_concatenates_pages[of example_query "''ITEM''" "''ITEM''", OF example_spans i] example_spans
  show ?thesis
    by (simp add: items_of_def removeKeys_def example_stored_def example_stored2_def)
qed

text \<open>
  Claim C5. A record that \<open>get\<close> or \<open>list\<close> returns has neither a \<^verbatim>\<open>PK\<close> nor an \<^verbatim>\<open>SK\<close>
  attribute, whatever the table and the backend hold.
\<close>

theorem key_hiding:
  "(get rt ident pk sk tbl = Some item
      \<longrightarrow> ''PK'' \<notin> set (own_keys item) \<and> ''SK'' \<notin> set (own_keys item))
   \<and> (list send sk' pk' = Some (Inr items)
      \<longrightarrow> (\<forall>it \<in> set items. ''PK'' \<notin> set (own_keys it) \<and> ''SK'' \<notin> set (own_keys it)))"
proof (intro conjI impI)
  assume "get rt ident pk sk tbl = Some item"
  then obtain stored where "item = filter (\<lambda>(k, v). k \<noteq> ''SK'' \<and> k \<noteq> ''PK'') stored"
    by (auto simp: get_def removeKeys_def split: option.splits)
  then show "''PK'' \<notin> set (own_keys item)" "''SK'' \<notin> set (own_keys item)"
    by (simp_all add: keys_removed)
next
  assume "list send sk' pk' = Some (Inr items)"
  then obtain fetched where "items = removeKeys fetched"
    by (auto simp: list_def Let_def split: option.splits)
  then show "\<forall>it \<in> set items. ''PK'' \<notin> set (own_keys it) \<and> ''SK'' \<notin> set (own_keys it)"
    by (auto simp: removeKeys_def keys_removed)
qed

lemma example_list:
  "list example_query ''ITEM'' ''ITEM''
       = Some (Inr [[(''name'', Str ''A''), (''id'', Str ''1''), (''createdOn'', Str ''t0''),
                     (''lastModifiedOn'', Str ''t0'')],
                    [(''name'', Str ''C''), (''id'', Str ''2''), (''createdOn'', Str ''t0''),
                     (''lastModifiedOn'', Str ''t0'')]])"
  by (simp add: list_def example_query_def list_pages_next list_pages_last items_of_def
      removeKeys_def example_stored_def example_stored2_def example_key_def)

lemma example_get:
  "get example_runtime (Str ''1'') ''ITEM'' ''ITEM'' example_table
     = Some [(''name'', Str ''A''), (''id'', Str ''1''), (''createdOn'', Str ''t0''),
             (''lastModifiedOn'', Str ''t0'')]"
  by (simp add: get_def GetCommand_def removeKeys_def example_table_def example_stored_def)

theorem key_hiding_witness:
  "get example_runtime (Str ''1'') ''ITEM'' ''ITEM'' example_table
     = Some [(''name'', Str ''A''), (''id'', Str ''1''), (''createdOn'', Str ''t0''),
             (''lastModifiedOn'', Str ''t0'')]
   \<and> ''PK'' \<notin> set (own_keys [(''name'', Str ''A''), (''id'', Str ''1''), (''createdOn'', Str ''t0''),
             (''lastModifiedOn'', Str ''t0'')])
   \<and> list example_query ''ITEM'' ''ITEM''
       = Some (Inr [[(''name'', Str ''A''), (''id'', Str ''1''), (''createdOn'', Str ''t0''),
                     (''lastModifiedOn'', Str ''t0'')],
                    [(''name'', Str ''C''), (''id'', Str ''2''), (''createdOn'', Str ''t0''),
                     (''lastModifiedOn'', Str ''t0'')]])
   \<and> ''SK'' \<notin> set (own_keys [(''name'', Str ''C''), (''id'', Str ''2''), (''createdOn'', Str ''t0''),
                     (''lastModifiedOn'', Str ''t0'')])"
  using key_hiding[of example_runtime "Str ''1''" "''ITEM''" "''ITEM''" example_table _
      example_query "''ITEM''" "''ITEM''"] example_get example_list
  by simp

section \<open>update\<close>

lemma merge_props_get:
  "get_prop (merge_props r ks x) k =
     (if k \<in> set ks \<and> k \<noteq> ''createdOn'' \<and> k \<noteq> ''id'' then get_prop r k else get_prop x k)"
  by (induction ks arbitrary: x) (auto simp: get_prop_set_prop)

lemma update_found:
  fixes now :: string and sk :: string
  assumes e: "tbl (pk @ ''#'' @ ToString rt (get_prop p ''id''), sk) = Some e"
  defines "r2 \<equiv> set_prop (set_prop p ''PK'' (Str (pk @ ''#'' @ ToString rt (get_prop p ''id'')))) ''SK'' (Str sk)"
  defines "stored \<equiv> set_prop (merge_props r2 (own_keys r2)
              (filter (\<lambda>(k, v). k \<noteq> ''SK'' \<and> k \<noteq> ''PK'') e)) ''lastModifiedOn'' (Str now)"
  shows "update rt p pk sk now tbl =
           (r2, tbl((pk @ ''#'' @ ToString rt (get_prop p ''id''), sk) \<mapsto> stored), Inr ())"
proof -
  have i: "get_prop r2 ''id'' = get_prop p ''id''"
    by (simp add: r2_def get_prop_set_prop)
  have g: "get rt (get_prop r2 ''id'') pk sk tbl = Some (filter (\<lambda>(k, v). k \<noteq> ''SK'' \<and> k \<noteq> ''PK'') e)"
    unfolding i using e by (rule get_stored)
  have k: "''PK'' \<in> set (own_keys r2)" "''SK'' \<in> set (own_keys r2)"
    by (simp_all add: r2_def keys_set_prop)
  have m: "get_prop (merge_props r2 (own_keys r2) (filter (\<lambda>(k, v). k \<noteq> ''SK'' \<and> k \<noteq> ''PK'') e)) ''PK''
             = Str (pk @ ''#'' @ ToString rt (get_prop p ''id''))"
     "get_prop (merge_props r2 (own_keys r2) (filter (\<lambda>(k, v). k \<noteq> ''SK'' \<and> k \<noteq> ''PK'') e)) ''SK''
             = Str sk"
    using k by (simp_all add: merge_props_get) (simp_all add: r2_def get_prop_set_prop)
  have "putItem (merge_props r2 (own_keys r2) (filter (\<lambda>(k, v). k \<noteq> ''SK'' \<and> k \<noteq> ''PK'') e)) now tbl
          = (stored, tbl((pk @ ''#'' @ ToString rt (get_prop p ''id''), sk) \<mapsto> stored), Inr ())"
    unfolding stored_def using m by (rule putItem_keyed)
  then show ?thesis
    using g unfolding update_def Let_def r2_def[symmetric] by simp
qed

lemma update_missing:
  assumes "tbl (pk @ ''#'' @ ToString rt (get_prop p ''id''), sk) = None"
  shows "\<exists>p'. update rt p pk sk now tbl = (p', tbl, Inl (Str ''404''))"
proof -
  have "get rt (get_prop (set_prop (set_prop p ''PK'' (Str (pk @ ''#'' @ ToString rt (get_prop p ''id''))))
            ''SK'' (Str sk)) ''id'') pk sk tbl = None"
    using assms by (simp add: get_prop_set_prop get_missing)
  then show ?thesis
    by (simp add: update_def Let_def)
qed

text \<open>
  Claim C1, amended. When the table holds a record \<open>e\<close> under the key of the payload \<open>p\<close>,
  \<open>update\<close> succeeds and replaces it by a record in which every field of \<open>p\<close> other than
  \<^verbatim>\<open>id\<close>, \<^verbatim>\<open>createdOn\<close>, \<^verbatim>\<open>lastModifiedOn\<close> and the key attributes has the value \<open>p\<close> gives it,
  every field that \<open>p\<close> lacks other than \<^verbatim>\<open>lastModifiedOn\<close> and the key attributes is as in
  \<open>e\<close>, \<^verbatim>\<open>id\<close> and \<^verbatim>\<open>createdOn\<close> are as in \<open>e\<close>, \<^verbatim>\<open>lastModifiedOn\<close> is the time of the write
  and \<^verbatim>\<open>PK\<close> and \<^verbatim>\<open>SK\<close> are the key derived from the payload's id.
\<close>

theorem update_merges:
  assumes "tbl (pk @ ''#'' @ ToString rt (get_prop p ''id''), sk) = Some e"
  shows "\<exists>p' stored.
     update rt p pk sk now tbl =
       (p', tbl((pk @ ''#'' @ ToString rt (get_prop p ''id''), sk) \<mapsto> stored), Inr ())
     \<and> (\<forall>k. k \<in> set (own_keys p)
             \<and> k \<notin> {''id'', ''createdOn'', ''lastModifiedOn'', ''PK'', ''SK''}
            \<longrightarrow> get_prop stored k = get_prop p k)
     \<and> (\<forall>k. k \<notin> set (own_keys p) \<and> k \<notin> {''lastModifiedOn'', ''PK'', ''SK''}
            \<longrightarrow> get_prop stored k = get_prop e k)
     \<and> get_prop stored ''id'' = get_prop e ''id''
     \<and> get_prop stored ''createdOn'' = get_prop e ''createdOn''
     \<and> get_prop stored ''lastModifiedOn'' = Str now
     \<and> get_prop stored ''PK'' = Str (pk @ ''#'' @ ToString rt (get_prop p ''id''))
     \<and> get_prop stored ''SK'' = Str sk"
proof -
  define r2 where "r2 = set_prop (set_prop p ''PK'' (Str (pk @ ''#'' @ ToString rt (get_prop p ''id'')))) ''SK'' (Str sk)"
  define stored where "stored = set_prop (merge_props r2 (own_keys r2)
              (filter (\<lambda>(k, v). k \<noteq> ''SK'' \<and> k \<noteq> ''PK'') e)) ''lastModifiedOn'' (Str now)"
  have u: "update rt p pk sk now tbl =
           (r2, tbl((pk @ ''#'' @ ToString rt (get_prop p ''id''), sk) \<mapsto> stored), Inr ())"
    unfolding r2_def stored_def using assms by (rule update_found)
  have ks: "set (own_keys r2) = insert ''SK'' (insert ''PK'' (set (own_keys p)))"
    by (simp add: r2_def keys_set_prop)
  have s: "get_prop stored k =
      (if k = ''lastModifiedOn'' then Str now
       else if k = ''SK'' then Str sk
       else if k = ''PK'' then Str (pk @ ''#'' @ ToString rt (get_prop p ''id''))
       else if k \<in> set (own_keys p) \<and> k \<noteq> ''createdOn'' \<and> k \<noteq> ''id'' then get_prop p k
       else get_prop e k)" for k
    by (simp add: stored_def get_prop_set_prop merge_props_get ks get_prop_removed)
       (simp add: r2_def get_prop_set_prop)
  show ?thesis
    apply (rule exI[of _ r2])
    apply (rule exI[of _ stored])
    apply (intro conjI allI impI)
           apply (rule u)
          apply (simp_all add: s)
    done
qed

lemma example_table_holds:
  "example_table (''ITEM'' @ ''#'' @ ToString example_runtime (get_prop example_update ''id''), ''ITEM'')
     = Some example_stored"
  by (simp add: example_table_def example_update_def get_prop_def)

theorem update_merges_witness:
  "example_table (''ITEM'' @ ''#'' @ ToString example_runtime (get_prop example_update ''id''), ''ITEM'')
     = Some example_stored
   \<and> (\<exists>p' stored.
        update example_runtime example_update ''ITEM'' ''ITEM'' ''t9'' example_table
          = (p', example_table((''ITEM#1'', ''ITEM'') \<mapsto> stored), Inr ())
        \<and> get_prop stored ''name'' = Str ''B''
        \<and> get_prop stored ''id'' = Str ''1''
        \<and> get_prop stored ''createdOn'' = Str ''t0''
        \<and> get_prop stored ''lastModifiedOn'' = Str ''t9'')"
proof -
  from update_merges[where tbl = example_table and pk = "''ITEM''" and rt = example_runtime
      and p = example_update and sk = "''ITEM''" and e = example_stored and now = "''t9''",
      OF example_table_holds]
  obtain p' stored where
    u: "update example_runtime example_update ''ITEM'' ''ITEM'' ''t9'' example_table =
       (p', example_table((''ITEM'' @ ''#'' @ ToString example_runtime (get_prop example_update ''id''), ''ITEM'') \<mapsto> stored), Inr ())"
    and a: "\<forall>k. k \<in> set (own_keys example_update)
             \<and> k \<notin> {''id'', ''createdOn'', ''lastModifiedOn'', ''PK'', ''SK''}
            \<longrightarrow> get_prop stored k = get_prop example_update k"
    and i: "get_prop stored ''id'' = get_prop example_stored ''id''"
    and c: "get_prop stored ''createdOn'' = get_prop example_stored ''createdOn''"
    and l: "get_prop stored ''lastModifiedOn'' = Str ''t9''"
    by (elim exE conjE)
  have n: "get_prop stored ''name'' = Str ''B''"
    using a[rule_format, of "''name''"] by (simp add: example_update_def own_keys_def get_prop_def)
  have u': "update example_runtime example_update ''ITEM'' ''ITEM'' ''t9'' example_table
          = (p', example_table((''ITEM#1'', ''ITEM'') \<mapsto> stored), Inr ())"
    using u by (simp add: example_update_def get_prop_def)
  show ?thesis
    apply (rule conjI[OF example_table_holds])
    apply (rule exI[of _ p'])
    apply (rule exI[of _ stored])
    using u' n i c l by (simp add: example_stored_def get_prop_def)
qed

text \<open>
  The claim C1 as it is written fails for the field \<^verbatim>\<open>lastModifiedOn\<close>: the payload carries
  \<^verbatim>\<open>t5\<close> for it, and the record stored by the update written at \<^verbatim>\<open>t9\<close> carries \<^verbatim>\<open>t9\<close>.
\<close>

theorem update_overrides_payload_timestamp:
  "''lastModifiedOn'' \<in> set (own_keys example_update)
   \<and> get_prop example_update ''lastModifiedOn'' = Str ''t5''
   \<and> example_table (''ITEM#1'', ''ITEM'') = Some example_stored
   \<and> fst (snd (update example_runtime example_update ''ITEM'' ''ITEM'' ''t9'' example_table))
        (''ITEM#1'', ''ITEM'')
       = Some [(''name'', Str ''B''), (''id'', Str ''1''), (''createdOn'', Str ''t0''),
               (''lastModifiedOn'', Str ''t9''), (''PK'', Str ''ITEM#1''), (''SK'', Str ''ITEM'')]
   \<and> get_prop [(''name'', Str ''B''), (''id'', Str ''1''), (''createdOn'', Str ''t0''),
               (''lastModifiedOn'', Str ''t9''), (''PK'', Str ''ITEM#1''), (''SK'', Str ''ITEM'')]
         ''lastModifiedOn'' \<noteq> get_prop example_update ''lastModifiedOn''"
  by (simp add: update_def get_def GetCommand_def removeKeys_def putItem_def PutCommand_def
      example_update_def example_table_def example_stored_def own_keys_def get_prop_def Let_def)

section \<open>Route registration\<close>

lemma fullPath_undecorated: "fullPath b None = fullPath b (Some [])"
  by (simp add: fullPath_def)

text \<open>
  Claim C7, amended. The full path of an operation with base path \<open>b\<close> and sub path \<open>s\<close> is
  a slash followed by the non-empty ones of the two segments joined by a slash. It begins
  with a slash, and with exactly one slash precisely when the first non-empty segment does
  not begin with a slash itself (or both segments are empty).
\<close>

theorem fullPath_join:
  "fullPath b (Some s) =
     (if b = [] \<and> s = [] then ''/''
      else if b = [] then ''/'' @ s
      else if s = [] then ''/'' @ b
      else ''/'' @ b @ ''/'' @ s)
   \<and> hd (fullPath b (Some s)) = CHR ''/''
   \<and> 1 \<le> leading_slashes (fullPath b (Some s))
   \<and> (leading_slashes (fullPath b (Some s)) = 1 \<longleftrightarrow>
        (if b = [] then s = [] \<or> hd s \<noteq> CHR ''/'' else hd b \<noteq> CHR ''/''))"
  by (auto simp: fullPath_def leading_slashes_def takeWhile_eq_Nil_iff hd_append)

theorem fullPath_join_witness:
  "fullPath ''items'' (Some '':id'') = ''/items/:id''
   \<and> leading_slashes (fullPath ''items'' (Some '':id'')) = 1"
  using fullPath_join[of "''items''" "'':id''"] by (simp add: leading_slashes_def)

text \<open>
  The claim C7 as it is written fails for a base path that begins with a slash, as in
  \<^verbatim>\<open>@Controller('/items')\<close>: the full path then begins with two.
\<close>

theorem fullPath_double_slash:
  "fullPath ''/items'' (Some '':id'') = ''//items/:id''
   \<and> leading_slashes (fullPath ''/items'' (Some '':id'')) = 2"
  by (simp add: fullPath_def leading_slashes_def)


lemma route_label_inj: "route_label h fp = route_label h' fp' \<Longrightarrow> h = h' \<and> fp = fp'"
  by (cases h; cases h') (simp_all add: route_label_def)

lemma fullPath_nonempty: "fullPath base rte \<noteq> []"
  by (simp add: fullPath_def)

lemma label_seen:
  "route_label h fp \<in> set (map (\<lambda>(h, fp). route_label h fp) seen) \<longleftrightarrow> (h, fp) \<in> set seen"
  by (auto dest: route_label_inj)

lemma count_list_twice: "x \<in> set xs \<Longrightarrow> 2 \<le> count_list (xs @ x # ys) x"
proof -
  assume "x \<in> set xs"
  then have "0 < count_list xs x"
    by (simp add: count_list_0_iff zero_less_iff_neq_zero)
  then show ?thesis by simp
qed

lemma forEach_methodName_registers:
  assumes "map route_of ap = seen" and "distinct seen"
  shows "registers seen
           (List.map_filter (\<lambda>m. case httpMethod m of None \<Rightarrow> None
                                   | Some h \<Rightarrow> Some (h, fullPath base (route m))) ms)
           (forEach_methodName base ms (map (\<lambda>(h, fp). route_label h fp) seen, ap))"
  using assms
proof (induction ms arbitrary: seen ap)
  case Nil
  then show ?case by (simp add: registers_def)
next
  case (Cons m ms)
  show ?case
  proof (cases "httpMethod m")
    case None
    have "registers seen
           (List.map_filter (\<lambda>m. case httpMethod m of None \<Rightarrow> None
                                   | Some h \<Rightarrow> Some (h, fullPath base (route m))) ms)
           (forEach_methodName base ms (map (\<lambda>(h, fp). route_label h fp) seen, ap))"
      using Cons.prems by (rule Cons.IH)
    with None show ?thesis by simp
  next
    case (Some h)
    let ?fp = "fullPath base (route m)"
    let ?rest = "List.map_filter (\<lambda>m. case httpMethod m of None \<Rightarrow> None
                                   | Some h \<Rightarrow> Some (h, fullPath base (route m))) ms"
    have pf: "List.map_filter (\<lambda>m. case httpMethod m of None \<Rightarrow> None
                                   | Some h \<Rightarrow> Some (h, fullPath base (route m))) (m # ms)
                = (h, ?fp) # ?rest"
      using Some by simp
    show ?thesis
    proof (cases "(h, ?fp) \<in> set seen")
      case True
      then have l: "route_label h ?fp \<in> set (map (\<lambda>(h, fp). route_label h fp) seen)"
        by (simp only: label_seen)
      have step: "forEach_methodName base (m # ms) (map (\<lambda>(h, fp). route_label h fp) seen, ap)
                    = Inl (Str (''Duplicate Route: '' @ route_label h ?fp))"
        using Some l fullPath_nonempty[of base "route m"] by (simp add: Let_def)
      have nd: "\<not> distinct (seen @ (h, ?fp) # ?rest)"
        using True by simp
      have c: "2 \<le> count_list (seen @ (h, ?fp) # ?rest) (h, ?fp)"
        using True by (rule count_list_twice)
      show ?thesis
        unfolding pf step registers_def
        by (simp only: nd if_False) (use c in blast)
    next
      case False
      then have l: "route_label h ?fp \<notin> set (map (\<lambda>(h, fp). route_label h fp) seen)"
        by (simp only: label_seen not_False_eq_True)
      have step: "forEach_methodName base (m # ms) (map (\<lambda>(h, fp). route_label h fp) seen, ap)
                    = forEach_methodName base ms
                        (map (\<lambda>(h, fp). route_label h fp) (seen @ [(h, ?fp)]),
                         ap @ [(h, ?fp, methodName m)])"
        using Some l fullPath_nonempty[of base "route m"] by (simp add: Let_def)
      have "registers (seen @ [(h, ?fp)]) ?rest
              (forEach_methodName base ms
                 (map (\<lambda>(h, fp). route_label h fp) (seen @ [(h, ?fp)]), ap @ [(h, ?fp, methodName m)]))"
        using Cons.prems False by (intro Cons.IH) (simp_all add: route_of_def)
      then have "registers seen ((h, ?fp) # ?rest)
              (forEach_methodName base ms
                 (map (\<lambda>(h, fp). route_label h fp) (seen @ [(h, ?fp)]), ap @ [(h, ?fp, methodName m)]))"
        by (simp only: registers_def append_assoc append.simps)
      then show ?thesis
        by (simp only: pf step)
    qed
  qed
qed

lemma registers_more:
  assumes "registers seen new (Inl e)"
  shows "registers seen (new @ further) (Inl e)"
proof -
  from assms have d: "\<not> distinct (seen @ new)"
    and "\<exists>h fp. e = Str (''Duplicate Route: '' @ route_label h fp) \<and> 2 \<le> count_list (seen @ new) (h, fp)"
    by (auto simp: registers_def split: if_splits)
  then obtain h fp where e: "e = Str (''Duplicate Route: '' @ route_label h fp)"
    and c: "2 \<le> count_list (seen @ new) (h, fp)"
    by blast
  from d have "\<not> distinct (seen @ new @ further)" by auto
  moreover from c have "2 \<le> count_list (seen @ new @ further) (h, fp)" by simp
  ultimately show ?thesis
    using e by (auto simp: registers_def)
qed

lemma forEach_controller_registers:
  assumes "map route_of ap = seen" and "distinct seen"
  shows "registers seen (resolved cs)
           (forEach_controller cs (map (\<lambda>(h, fp). route_label h fp) seen, ap))"
  using assms
proof (induction cs arbitrary: seen ap)
  case Nil
  then show ?case by (simp add: registers_def resolved_def)
next
  case (Cons c cs)
  let ?r = "forEach_methodName (base_of c) (operations c) (map (\<lambda>(h, fp). route_label h fp) seen, ap)"
  have m: "registers seen (resolved_operations c) ?r"
    unfolding resolved_operations_def using Cons.prems by (rule forEach_methodName_registers)
  have split: "resolved (c # cs) = resolved_operations c @ resolved cs"
    by (simp add: resolved_def)
  show ?case
  proof (cases ?r)
    case (Inl e)
    with m have "registers seen (resolved_operations c @ resolved cs) (Inl e)"
      by (simp add: registers_more)
    with Inl show ?thesis by (simp add: split)
  next
    case (Inr st)
    with m obtain ap' where st: "st = (map (\<lambda>(h, fp). route_label h fp) (seen @ resolved_operations c), ap')"
      and ap': "map route_of ap' = seen @ resolved_operations c"
      and d: "distinct (seen @ resolved_operations c)"
      by (auto simp: registers_def split: if_splits)
    have step: "forEach_controller (c # cs) (map (\<lambda>(h, fp). route_label h fp) seen, ap)
                  = forEach_controller cs st"
      using Inr by simp
    have "registers (seen @ resolved_operations c) (resolved cs) (forEach_controller cs st)"
      unfolding st using ap' d by (rule Cons.IH)
    then have "registers seen (resolved_operations c @ resolved cs) (forEach_controller cs st)"
      by (simp only: registers_def append_assoc)
    then show ?thesis
      by (simp only: step split)
  qed
qed

lemma server_registers:
  "registers [] (resolved cs) (forEach_controller cs ([], []))"
  using forEach_controller_registers[of "[]" "[]" cs] by simp

text \<open>
  Claim C6. When two decorated operations resolve to the same method and full path, the
  registration loop throws \<^verbatim>\<open>Duplicate Route: [METHOD] path\<close> for a route that occurs at
  least twice, so the process is aborted before \<^verbatim>\<open>app.listen\<close>; and a process that is
  listening has registered every resolved route, all of them different.
\<close>

theorem duplicate_route_aborts:
  "(\<not> distinct (resolved cs) \<longrightarrow>
      (\<exists>h fp. server cs = ABORTED (Str (''Duplicate Route: '' @ route_label h fp))
               \<and> 2 \<le> count_list (resolved cs) (h, fp)))
   \<and> (\<forall>ap. server cs = LISTENING ap \<longrightarrow>
         distinct (resolved cs) \<and> map route_of ap = resolved cs)"
proof (intro conjI allI impI)
  assume "\<not> distinct (resolved cs)"
  with server_registers[of cs]
  obtain h fp where "forEach_controller cs ([], []) = Inl (Str (''Duplicate Route: '' @ route_label h fp))"
    and "2 \<le> count_list (resolved cs) (h, fp)"
    unfolding registers_def by auto
  then have "server cs = ABORTED (Str (''Duplicate Route: '' @ route_label h fp))
               \<and> 2 \<le> count_list (resolved cs) (h, fp)"
    by (simp add: server_def)
  then show "\<exists>h fp. server cs = ABORTED (Str (''Duplicate Route: '' @ route_label h fp))
               \<and> 2 \<le> count_list (resolved cs) (h, fp)"
    by blast
next
  fix ap
  assume l: "server cs = LISTENING ap"
  show "distinct (resolved cs)"
  proof (rule ccontr)
    assume "\<not> distinct (resolved cs)"
    with server_registers[of cs] l show False
      by (auto simp: registers_def server_def)
  qed
  with server_registers[of cs] l show "map route_of ap = resolved cs"
    by (auto simp: registers_def server_def)
qed

lemma example_resolved:
  "resolved example_controllers = [(Get, ''/items/:id''), (Get, ''/items/:id'')]"
  by (simp add: resolved_def resolved_operations_def example_controllers_def base_of_def
      fullPath_def)

theorem duplicate_route_aborts_witness:
  "\<not> distinct (resolved example_controllers)
   \<and> server example_controllers = ABORTED (Str ''Duplicate Route: [GET] /items/:id'')"
proof -
  have d: "\<not> distinct (resolved example_controllers)"
    by (simp add: example_resolved)
  from duplicate_route_aborts[of example_controllers] d
  obtain h fp where a: "server example_controllers = ABORTED (Str (''Duplicate Route: '' @ route_label h fp))"
    and c: "2 \<le> count_list (resolved example_controllers) (h, fp)"
    by blast
  from c have "(h, fp) = (Get, ''/items/:id'')"
    by (auto simp: example_resolved split: if_splits)
  with a d show ?thesis
    by (simp add: route_label_def)
qed

section \<open>The route callback and the item routes\<close>

lemma catch_all_value:
  "e \<noteq> Undefined \<Longrightarrow> e \<noteq> Null \<Longrightarrow>
     catch_all e = Inr \<lparr>status = Num 500,
                        json = Obj [(''error'', case e of Obj ps \<Rightarrow> get_prop ps ''message'' | _ \<Rightarrow> Undefined)]\<rparr>"
  by (cases e) (simp_all add: catch_all_def)

text \<open>
  Claim C8, amended. When the operation raises a value other than \<^verbatim>\<open>undefined\<close> and
  \<^verbatim>\<open>null\<close>, the callback catches it and answers with status 500; when the value is an
  object, the body is \<^verbatim>\<open>{ error: e.message }\<close>, which for an \<^verbatim>\<open>Error\<close> carries its message.
\<close>

theorem handler_error_becomes_500:
  assumes "handler (invocation_request rt req) s = (s', Inl e)" and "e \<noteq> Undefined" and "e \<noteq> Null"
  shows "\<exists>resp. route_callback rt handler req s = (s', Inr resp)
     \<and> status resp = Num 500
     \<and> (\<forall>ps. e = Obj ps \<longrightarrow> json resp = Obj [(''error'', get_prop ps ''message'')])
     \<and> (\<forall>nm msg. e = JSError nm msg \<longrightarrow> json resp = Obj [(''error'', Str msg)])"
proof -
  have "route_callback rt handler req s = (s', catch_all e)"
    using assms(1) by (simp add: route_callback_def)
  then show ?thesis
    using assms(2,3) by (auto simp: catch_all_value JSError_def get_prop_def)
qed

lemma example_raising:
  "raising e (invocation_request example_runtime example_get_request) () = ((), Inl e)"
  by (simp add: raising_def)

theorem handler_error_becomes_500_witness:
  "raising (JSError ''Error'' ''boom'') (invocation_request example_runtime example_get_request) ()
     = ((), Inl (JSError ''Error'' ''boom''))
   \<and> route_callback example_runtime (raising (JSError ''Error'' ''boom'')) example_get_request ()
     = ((), Inr \<lparr>status = Num 500, json = Obj [(''error'', Str ''boom'')]\<rparr>)"
proof -
  have n: "JSError ''Error'' ''boom'' \<noteq> Undefined" "JSError ''Error'' ''boom'' \<noteq> Null"
    by (simp_all add: JSError_def)
  from handler_error_becomes_500[where handler = "raising (JSError ''Error'' ''boom'')"
      and rt = example_runtime and req = example_get_request and s = "()" and s' = "()"
      and e = "JSError ''Error'' ''boom''", OF example_raising n]
  obtain resp where r: "route_callback example_runtime (raising (JSError ''Error'' ''boom'')) example_get_request ()
       = ((), Inr resp)"
    and s: "status resp = Num 500"
    and j: "\<forall>nm msg. JSError ''Error'' ''boom'' = JSError nm msg \<longrightarrow> json resp = Obj [(''error'', Str msg)]"
    by (elim exE conjE)
  from j have "json resp = Obj [(''error'', Str ''boom'')]" by blast
  with s have "resp = \<lparr>status = Num 500, json = Obj [(''error'', Str ''boom'')]\<rparr>"
    by (cases resp) simp
  with r example_raising show ?thesis by simp
qed

text \<open>
  The claim C8 as it is written fails for a thrown string, whose \<^verbatim>\<open>message\<close> property is
  \<^verbatim>\<open>undefined\<close>: the body does not carry the text. A thrown \<^verbatim>\<open>null\<close> makes the
  \<^verbatim>\<open>catch\<close> block itself raise, and no response is written.
\<close>

theorem thrown_string_loses_message:
  "route_callback example_runtime (raising (Str ''boom'')) example_get_request ()
     = ((), Inr \<lparr>status = Num 500, json = Obj [(''error'', Undefined)]\<rparr>)
   \<and> route_callback example_runtime (raising Null) example_get_request ()
     = ((), Inl (JSError ''TypeError'' ''Cannot read properties of null (reading message)''))"
  by (simp add: route_callback_def raising_def catch_all_def)

lemma invocation_params:
  "params req = Obj ps \<Longrightarrow> pathParameters (invocation_request rt req) = Obj ps"
  by (simp add: invocation_request_def Let_def)

lemma get_handler_absent:
  assumes "pathParameters request = Obj ps" and "get rt (get_prop ps ''id'') ''ITEM'' ''ITEM'' tbl = None"
  shows "ItemsGetController_handler rt request tbl
           = (tbl, Inr (buildResponseBody rt 200 Undefined (Str ''ALLOW'')))"
  using assms by (simp add: ItemsGetController_handler_def)

lemma get_handler_present:
  assumes "pathParameters request = Obj ps" and "get rt (get_prop ps ''id'') ''ITEM'' ''ITEM'' tbl = Some item"
  shows "ItemsGetController_handler rt request tbl
           = (tbl, Inr (buildResponseBody rt 200 (Obj item) (Str ''ALLOW'')))"
  using assms by (simp add: ItemsGetController_handler_def)

lemma callback_on_envelope:
  assumes "handler (invocation_request rt req) s = (s', Inr (buildResponseBody rt code b (Str ''ALLOW'')))"
  shows "route_callback rt handler req s =
     (s', case (if typeof b = ''string'' then b else JSON_stringify rt b) of
            Str text \<Rightarrow>
              (case JSON_parse rt text of
                 Inl m \<Rightarrow> catch_all (JSError ''SyntaxError'' m)
               | Inr v \<Rightarrow> Inr \<lparr>status = or_else (Num code) (Num 200), json = or_else v (Obj [])\<rparr>)
          | b' \<Rightarrow> Inr \<lparr>status = or_else (Num code) (Num 200), json = or_else b' (Obj [])\<rparr>)"
  using assms
  by (simp add: route_callback_def buildResponseBody_def get_prop_def
      split: jsval.splits sum.splits)

text \<open>
  Claim C9, amended. \<^verbatim>\<open>GET /items/:id\<close> on the local server answers with status 200 in both
  cases: with the item as body when \<open>get\<close> finds a record (and parsing gives back what
  \<^verbatim>\<open>JSON.stringify\<close> wrote), and with the empty object as body when the id is absent.
\<close>

theorem get_item_response:
  assumes "params req = Obj ps"
  shows "(get rt (get_prop ps ''id'') ''ITEM'' ''ITEM'' tbl = None \<longrightarrow>
            route_callback rt (ItemsGetController_handler rt) req tbl
              = (tbl, Inr \<lparr>status = Num 200, json = Obj []\<rparr>))
     \<and> (\<forall>item. get rt (get_prop ps ''id'') ''ITEM'' ''ITEM'' tbl = Some item
                 \<and> JSON_parse rt (JSON_text rt (Obj item)) = Inr (Obj item) \<longrightarrow>
            route_callback rt (ItemsGetController_handler rt) req tbl
              = (tbl, Inr \<lparr>status = Num 200, json = Obj item\<rparr>))"
proof (intro conjI allI impI)
  note p = invocation_params[OF assms, of rt]
  assume "get rt (get_prop ps ''id'') ''ITEM'' ''ITEM'' tbl = None"
  from get_handler_absent[OF p this]
  show "route_callback rt (ItemsGetController_handler rt) req tbl
              = (tbl, Inr \<lparr>status = Num 200, json = Obj []\<rparr>)"
    by (simp add: callback_on_envelope JSON_stringify_def or_else_def)
next
  note p = invocation_params[OF assms, of rt]
  fix item
  assume "get rt (get_prop ps ''id'') ''ITEM'' ''ITEM'' tbl = Some item
                 \<and> JSON_parse rt (JSON_text rt (Obj item)) = Inr (Obj item)"
  then have g: "get rt (get_prop ps ''id'') ''ITEM'' ''ITEM'' tbl = Some item"
    and j: "JSON_parse rt (JSON_text rt (Obj item)) = Inr (Obj item)"
    by simp_all
  from get_handler_present[OF p g] j
  show "route_callback rt (ItemsGetController_handler rt) req tbl
              = (tbl, Inr \<lparr>status = Num 200, json = Obj item\<rparr>)"
    by (simp add: callback_on_envelope JSON_stringify_def or_else_def)
qed

lemma example_get_params: "params example_get_request = Obj [(''id'', Str ''1'')]"
  by (simp add: example_get_request_def)

lemma example_get_item:
  "get example_runtime (get_prop [(''id'', Str ''1'')] ''id'') ''ITEM'' ''ITEM'' example_table
     = Some example_item"
  by (simp add: get_def GetCommand_def removeKeys_def get_prop_def example_item_def
      example_table_def example_stored_def)

lemma example_roundtrip:
  "JSON_parse example_runtime (JSON_text example_runtime (Obj example_item)) = Inr (Obj example_item)"
  by (simp add: example_runtime_def)

theorem get_item_response_witness:
  "params example_get_request = Obj [(''id'', Str ''1'')]
   \<and> route_callback example_runtime (ItemsGetController_handler example_runtime) example_get_request
        example_table
      = (example_table, Inr \<lparr>status = Num 200, json = Obj example_item\<rparr>)"
  using get_item_response[OF example_get_params, of example_runtime example_table]
    example_get_params example_get_item example_roundtrip
  by blast

text \<open>
  The claim C9 as it is written fails on the empty table: the answer for an absent id is a
  200 with an empty object, not an error.
\<close>

theorem get_absent_item_is_200:
  "get example_runtime (Str ''1'') ''ITEM'' ''ITEM'' Map.empty = None
   \<and> route_callback example_runtime (ItemsGetController_handler example_runtime) example_get_request
        Map.empty
      = (Map.empty, Inr \<lparr>status = Num 200, json = Obj []\<rparr>)"
  by (simp add: route_callback_def invocation_request_def ItemsGetController_handler_def
      example_get_request_def get_def GetCommand_def get_prop_def buildResponseBody_def
      JSON_stringify_def or_else_def Let_def)

lemma update_handler_missing:
  assumes "JSON_parse rt (ToString rt (body request)) = Inr (Obj p)"
    and "tbl (''ITEM'' @ ''#'' @ ToString rt (get_prop p ''id''), ''ITEM'') = None"
    and "pathParameters request = Obj ps"
  shows "ItemsUpdateController_handler rt now request tbl
           = (tbl, Inr (buildResponseBody rt 500 Undefined (Str ''ALLOW'')))"
proof -
  from update_missing[where tbl = tbl and pk = "''ITEM''" and rt = rt and p = p
      and sk = "''ITEM''" and now = now, OF assms(2)]
  obtain p' where "update rt p ''ITEM'' ''ITEM'' now tbl = (p', tbl, Inl (Str ''404''))" ..
  then show ?thesis
    using assms(1,3) by (simp add: ItemsUpdateController_handler_def Let_def)
qed

text \<open>
  Claim C2, at a \<^verbatim>\<open>PUT /items/1\<close> on the empty table. \<open>update\<close> throws the string
  \<^verbatim>\<open>404\<close>; the controller catches it and, a string having no \<^verbatim>\<open>message\<close>, returns the
  status 500 with no body, which the local server sends as a 500 with an empty object: the
  client sees no 404.
\<close>

theorem update_missing_id_is_500:
  "snd (snd (update example_runtime example_update ''ITEM'' ''ITEM'' ''t9'' Map.empty))
     = Inl (Str ''404'')
   \<and> ItemsUpdateController_handler example_runtime ''t9''
        (invocation_request example_runtime example_put_request) Map.empty
      = (Map.empty,
         Inr (Obj [(''statusCode'', Num 500),
                   (''headers'', Obj [(''Access-Control-Allow-Headers'', Str ''*''),
                                      (''Access-Control-Allow-Origin'', Str ''*''),
                                      (''Access-Control-Allow-Methods'', Str ''*'')]),
                   (''body'', Undefined)]))
   \<and> route_callback example_runtime (ItemsUpdateController_handler example_runtime ''t9'')
        example_put_request Map.empty
      = (Map.empty, Inr \<lparr>status = Num 500, json = Obj []\<rparr>)"
proof -
  have b: "body (invocation_request example_runtime example_put_request) = Str example_update_text"
    "pathParameters (invocation_request example_runtime example_put_request) = Obj [(''id'', Str ''1'')]"
    by (simp_all add: invocation_request_def example_put_request_def JSON_stringify_def
        example_runtime_def example_update_def example_item_def Let_def)
  have t: "example_update_text \<noteq> example_item_text"
    by (simp add: example_update_text_def example_item_text_def quoted_def)
  have "JSON_parse example_runtime example_update_text = Inr (Obj example_update)"
    by (simp add: example_runtime_def t)
  then have j: "JSON_parse example_runtime (ToString example_runtime
        (body (invocation_request example_runtime example_put_request))) = Inr (Obj example_update)"
    by (simp only: b ToString.simps)
  have m: "Map.empty (''ITEM'' @ ''#'' @ ToString example_runtime (get_prop example_update ''id''), ''ITEM'') = None"
    by simp
  have h: "ItemsUpdateController_handler example_runtime ''t9''
        (invocation_request example_runtime example_put_request) Map.empty
      = (Map.empty, Inr (buildResponseBody example_runtime 500 Undefined (Str ''ALLOW'')))"
    using j m b(2) by (rule update_handler_missing)
  have u: "snd (snd (update example_runtime example_update ''ITEM'' ''ITEM'' ''t9'' Map.empty))
     = Inl (Str ''404'')"
    using update_missing[where tbl = Map.empty and pk = "''ITEM''" and rt = example_runtime
        and p = example_update and sk = "''ITEM''" and now = "''t9''", OF m] by auto
  have r: "route_callback example_runtime (ItemsUpdateController_handler example_runtime ''t9'')
        example_put_request Map.empty
      = (Map.empty, Inr \<lparr>status = Num 500, json = Obj []\<rparr>)"
    using h by (simp add: callback_on_envelope JSON_stringify_def or_else_def)
  from u h r show ?thesis
    by (simp add: buildResponseBody_def JSON_stringify_def)
qed

end
